theory Spec2Isabelle
  imports Main "HOL-Library.Word"
begin

section \<open>The relay server (backend server, \<open>wss.on("connection", ...)\<close>)\<close>

text \<open>
  The server keeps a process-wide \<open>clients\<close> map from user id to WebSocket, a Redis list
  per key \<open>chat:\<close> followed by the user id, and, for every connection, the closure variable
  \<open>userId\<close> (initially \<open>null\<close>). A WebSocket is named by a number; its
  \<open>readyState\<close> is kept by the \<open>ws\<close> library (1 is OPEN, 3 is CLOSED).

  The source file holds two copies of the server. The first one, which stores a
  \<open>mediaType\<close> with each message, is modelled; the second has no \<open>mediaType\<close>, logs to
  the console, and is the same otherwise.

  Each \<open>async\<close> handler is modelled as one atomic step: the interleaving of two handlers
  at an \<open>await\<close> is not part of the model. \<open>uuidv4()\<close> and \<open>Date.now()\<close> are inputs of
  the step. Redis commands are taken to succeed.
\<close>

type_synonym conn = nat

text \<open>The \<open>chatMessage\<close> object built by \<open>send_message\<close>.\<close>

record chat_message =
  msg_id :: string
  msg_from :: string
  msg_to :: string
  content :: string
  mediaType :: string
  timestamp :: nat

text \<open>
  An element of a Redis list is a raw string. The only writer is \<open>redis.rpush(redisKey,
  JSON.stringify(chatMessage))\<close>; the readers call \<open>JSON.parse\<close>, some of them inside
  \<open>try { } catch { }\<close>. \<open>Entry m\<close> is the text \<open>JSON.stringify(m)\<close>, \<open>Unparsable t\<close> is a text on
  which \<open>JSON.parse\<close> throws.
\<close>

datatype raw_entry = Entry chat_message | Unparsable string

fun JSON_parse :: "raw_entry \<Rightarrow> chat_message option" where
  "JSON_parse (Entry m) = Some m"
| "JSON_parse (Unparsable t) = None"

text \<open>
  A frame from a client, after \<open>JSON.parse(raw)\<close>: the parse throws (\<open>NotJson\<close>), or
  yields \<open>null\<close> (\<open>JsonNull\<close>), or yields a value whose properties can be read
  (\<open>Json\<close>). A property that is \<open>undefined\<close> is \<open>None\<close>; the properties the handler
  reads are taken to be strings when present.
\<close>

record msg =
  mtype :: "string option"
  m_userId :: "string option"
  m_to :: "string option"
  m_content :: "string option"
  m_messageId :: "string option"
  m_mediaType :: "string option"

datatype frame_in = NotJson | JsonNull | Json msg

text \<open>JavaScript truthiness of a string-or-undefined value: \<open>!v\<close> holds for \<open>undefined\<close>,
  \<open>null\<close> and the empty string.\<close>

fun truthy :: "string option \<Rightarrow> bool" where
  "truthy None = False"
| "truthy (Some v) = (v \<noteq> [])"

text \<open>The \<open>error\<close> texts of the server, one constructor per text.\<close>

datatype error_text =
  InvalidJson
| UserIdRequired
| RegisterFirst
| ToContentRequired
| MessageIdRequired
| UnknownType "string option"

text \<open>The frames the server sends.\<close>

datatype s2c =
  ErrorFrame error_text
| PendingMessages "chat_message list" nat
| NewMessage chat_message
| MessageSent string string nat
| MessageSeen string string nat
| AllMessagesSeen string nat nat
| AckSeen string bool "string option"
| AckSeenAll nat

record server =
  clients :: "string \<Rightarrow> conn option"
  redis :: "string \<Rightarrow> raw_entry list"
  userId_of :: "conn \<Rightarrow> string option"
  readyState :: "conn \<Rightarrow> nat"

text \<open>What one run of a handler leaves behind: the state, the \<open>send\<close> calls in order
  (socket and frame), and whether the handler ended by an uncaught exception.\<close>

record result =
  state :: server
  sent :: "(conn \<times> s2c) list"
  threw :: bool

definition finish :: "server \<Rightarrow> (conn \<times> s2c) list \<Rightarrow> result" where
  "finish s out = \<lparr>state = s, sent = out, threw = False\<rparr>"

definition throw :: "server \<Rightarrow> (conn \<times> s2c) list \<Rightarrow> result" where
  "throw s out = \<lparr>state = s, sent = out, threw = True\<rparr>"

definition redisKey :: "string \<Rightarrow> string" where
  "redisKey u = ''chat:'' @ u"

text \<open>\<open>recipientWs && recipientWs.readyState === 1\<close>: the sockets a push for user \<open>u\<close>
  goes to (none or one).\<close>

definition live_ws :: "server \<Rightarrow> string \<Rightarrow> conn list" where
  "live_ws s u =
     (case clients s u of
        None \<Rightarrow> []
      | Some w \<Rightarrow> if readyState s w = 1 then [w] else [])"

text \<open>\<open>deliverPending(userId, ws)\<close>: \<open>lrange\<close>, then \<open>pending.map(JSON.parse)\<close> (which
  throws on an unparsable element), then one \<open>pending_messages\<close> frame. Nothing is
  deleted.\<close>

definition deliverPending :: "server \<Rightarrow> string \<Rightarrow> conn \<Rightarrow> result" where
  "deliverPending s u ws =
     (let pending = redis s (redisKey u) in
      if length pending > 0 then
        (if \<forall>r \<in> set pending. JSON_parse r \<noteq> None then
           (let messages = map (\<lambda>r. the (JSON_parse r)) pending in
            finish s [(ws, PendingMessages messages (length messages))])
         else throw s [])
      else finish s [])"

text \<open>\<open>deleteMessageFromRedis(userId, messageId)\<close>: the first element that parses and
  has the id; \<open>LREM key 1 raw\<close> removes the first element equal to it.\<close>

fun find_raw :: "string \<Rightarrow> raw_entry list \<Rightarrow> (raw_entry \<times> chat_message) option" where
  "find_raw messageId [] = None"
| "find_raw messageId (r # rs) =
     (case JSON_parse r of
        None \<Rightarrow> find_raw messageId rs
      | Some parsed \<Rightarrow>
          if msg_id parsed = messageId then Some (r, parsed) else find_raw messageId rs)"

definition deleteMessageFromRedis ::
  "server \<Rightarrow> string \<Rightarrow> string \<Rightarrow> server \<times> chat_message option" where
  "deleteMessageFromRedis s u messageId =
     (let k = redisKey u; allMessages = redis s k in
      case find_raw messageId allMessages of
        None \<Rightarrow> (s, None)
      | Some (r, parsed) \<Rightarrow>
          (s\<lparr>redis := (redis s)(k := remove1 r allMessages)\<rparr>, Some parsed))"

text \<open>The \<open>Set\<close> of senders of \<open>seen_all\<close>, in insertion order; an element that does not
  parse is skipped by the \<open>catch\<close>.\<close>

definition set_add :: "'a \<Rightarrow> 'a list \<Rightarrow> 'a list" where
  "set_add x xs = (if x \<in> set xs then xs else xs @ [x])"

fun collect_senders :: "raw_entry list \<Rightarrow> string list \<Rightarrow> string list" where
  "collect_senders [] senders = senders"
| "collect_senders (r # rs) senders =
     (case JSON_parse r of
        None \<Rightarrow> collect_senders rs senders
      | Some m \<Rightarrow> collect_senders rs (set_add (msg_from m) senders))"

subsection \<open>The cases of the \<open>switch (msg.type)\<close>\<close>

definition case_register :: "server \<Rightarrow> conn \<Rightarrow> msg \<Rightarrow> result" where
  "case_register s ws m =
     (if \<not> truthy (m_userId m) then finish s [(ws, ErrorFrame UserIdRequired)]
      else
        (let u = the (m_userId m);
             s1 = s\<lparr>userId_of := (userId_of s)(ws := Some u)\<rparr>;
             s2 = s1\<lparr>clients := (clients s1)(u := Some ws)\<rparr>
         in deliverPending s2 u ws))"

definition case_send_message :: "server \<Rightarrow> conn \<Rightarrow> msg \<Rightarrow> string \<Rightarrow> nat \<Rightarrow> result" where
  "case_send_message s ws m uuid now =
     (if \<not> truthy (userId_of s ws) then finish s [(ws, ErrorFrame RegisterFirst)]
      else if \<not> truthy (m_to m) \<or> \<not> truthy (m_content m) then
        finish s [(ws, ErrorFrame ToContentRequired)]
      else
        (let to = the (m_to m);
             chatMessage = \<lparr>msg_id = uuid, msg_from = the (userId_of s ws), msg_to = to,
                            content = the (m_content m),
                            mediaType = (if truthy (m_mediaType m) then the (m_mediaType m)
                                         else ''text''),
                            timestamp = now\<rparr>;
             k = redisKey to;
             s1 = s\<lparr>redis := (redis s)(k := redis s k @ [Entry chatMessage])\<rparr>
         in finish s1
              ((ws, MessageSent uuid to now)
               # map (\<lambda>w. (w, NewMessage chatMessage)) (live_ws s1 to))))"

definition case_seen :: "server \<Rightarrow> conn \<Rightarrow> msg \<Rightarrow> nat \<Rightarrow> result" where
  "case_seen s ws m now =
     (if \<not> truthy (userId_of s ws) then finish s [(ws, ErrorFrame RegisterFirst)]
      else if \<not> truthy (m_messageId m) then finish s [(ws, ErrorFrame MessageIdRequired)]
      else
        (let u = the (userId_of s ws); messageId = the (m_messageId m) in
         case deleteMessageFromRedis s u messageId of
           (s1, Some originalMessage) \<Rightarrow>
             finish s1
               (map (\<lambda>w. (w, MessageSeen messageId u now)) (live_ws s1 (msg_from originalMessage))
                @ [(ws, AckSeen messageId True None)])
         | (s1, None) \<Rightarrow>
             finish s1
               [(ws, AckSeen messageId False (Some ''Mensaje no encontrado en la cola''))]))"

definition case_seen_all :: "server \<Rightarrow> conn \<Rightarrow> nat \<Rightarrow> result" where
  "case_seen_all s ws now =
     (if \<not> truthy (userId_of s ws) then finish s [(ws, ErrorFrame RegisterFirst)]
      else
        (let u = the (userId_of s ws);
             k = redisKey u;
             allRaw = redis s k;
             s1 = s\<lparr>redis := (redis s)(k := [])\<rparr>;
             senders = collect_senders allRaw []
         in finish s1
              (concat (map (\<lambda>senderId.
                              map (\<lambda>w. (w, AllMessagesSeen u (length allRaw) now))
                                  (live_ws s1 senderId))
                           senders)
               @ [(ws, AckSeenAll (length allRaw))])))"

definition case_default :: "server \<Rightarrow> conn \<Rightarrow> msg \<Rightarrow> result" where
  "case_default s ws m = finish s [(ws, ErrorFrame (UnknownType (mtype m)))]"

text \<open>\<open>ws.on("message", async (raw) => ...)\<close>. Reading \<open>msg.type\<close> of \<open>null\<close> throws a
  \<open>TypeError\<close> that nothing catches.\<close>

definition on_message :: "server \<Rightarrow> conn \<Rightarrow> frame_in \<Rightarrow> string \<Rightarrow> nat \<Rightarrow> result" where
  "on_message s ws raw uuid now =
     (case raw of
        NotJson \<Rightarrow> finish s [(ws, ErrorFrame InvalidJson)]
      | JsonNull \<Rightarrow> throw s []
      | Json m \<Rightarrow>
          if mtype m = Some ''register'' then case_register s ws m
          else if mtype m = Some ''send_message'' then case_send_message s ws m uuid now
          else if mtype m = Some ''seen'' then case_seen s ws m now
          else if mtype m = Some ''seen_all'' then case_seen_all s ws now
          else case_default s ws m)"

text \<open>\<open>ws.on("close", ...)\<close>: the library has set the socket to CLOSED; the handler
  deletes the key held in this connection's \<open>userId\<close>.\<close>

definition on_close :: "server \<Rightarrow> conn \<Rightarrow> server" where
  "on_close s ws =
     (let s1 = s\<lparr>readyState := (readyState s)(ws := 3)\<rparr> in
      if truthy (userId_of s1 ws)
      then s1\<lparr>clients := (clients s1)((the (userId_of s1 ws)) := None)\<rparr>
      else s1)"

text \<open>\<open>wss.on("connection", ...)\<close>: an open socket with \<open>userId = null\<close>.\<close>

definition on_connection :: "server \<Rightarrow> conn \<Rightarrow> server" where
  "on_connection s ws =
     s\<lparr>userId_of := (userId_of s)(ws := None), readyState := (readyState s)(ws := 1)\<rparr>"

definition init_server :: server where
  "init_server =
     \<lparr>clients = (\<lambda>u. None), redis = (\<lambda>k. []), userId_of = (\<lambda>w. None),
      readyState = (\<lambda>w. 0)\<rparr>"

definition register_frame :: "string \<Rightarrow> frame_in" where
  "register_frame u =
     Json \<lparr>mtype = Some ''register'', m_userId = Some u, m_to = None, m_content = None,
           m_messageId = None, m_mediaType = None\<rparr>"

definition seen_frame :: "string \<Rightarrow> frame_in" where
  "seen_frame messageId =
     Json \<lparr>mtype = Some ''seen'', m_userId = None, m_to = None, m_content = None,
           m_messageId = Some messageId, m_mediaType = None\<rparr>"

definition seen_all_frame :: frame_in where
  "seen_all_frame =
     Json \<lparr>mtype = Some ''seen_all'', m_userId = None, m_to = None, m_content = None,
           m_messageId = None, m_mediaType = None\<rparr>"

definition send_message_frame :: "string \<Rightarrow> string \<Rightarrow> frame_in" where
  "send_message_frame to c =
     Json \<lparr>mtype = Some ''send_message'', m_userId = None, m_to = Some to,
           m_content = Some c, m_messageId = None, m_mediaType = None\<rparr>"

text \<open>Every element of every Redis list parses: what \<open>rpush\<close> of a stringified
  \<open>chatMessage\<close> maintains.\<close>

definition entries_parse :: "server \<Rightarrow> bool" where
  "entries_parse s = (\<forall>k. \<forall>r \<in> set (redis s k). JSON_parse r \<noteq> None)"

section \<open>The password-based cipher envelope (Node crypto module and \<open>CryptoBrowser\<close>)\<close>

text \<open>
  The primitives are the platform's, not this repository's: PBKDF2 with SHA-512,
  AES-256-GCM, the UTF-8 codec (\<open>Buffer.from(s, 'utf8')\<close> and \<open>toString('utf8')\<close>,
  \<open>TextEncoder\<close> and \<open>TextDecoder\<close>) and base64 (\<open>btoa\<close>, \<open>atob\<close>). They are the fields
  of a \<open>platform\<close>. AES-GCM returns the ciphertext and the tag; \<open>atob\<close> throws on a text
  that is not base64. The random generator is a supply of bytes, read front to back.
  The optional \<open>aad\<close> argument of the Node \<open>encrypt\<close> and \<open>decrypt\<close> is \<open>undefined\<close> in
  every call of the password functions and is left out.
\<close>

type_synonym byte = "8 word"
type_synonym bytes = "byte list"
type_synonym rng = "nat \<Rightarrow> byte"

record platform =
  pbkdf2_sha512 :: "bytes \<Rightarrow> bytes \<Rightarrow> nat \<Rightarrow> nat \<Rightarrow> bytes"
  gcm_encrypt :: "bytes \<Rightarrow> bytes \<Rightarrow> bytes \<Rightarrow> bytes \<times> bytes"
  gcm_decrypt :: "bytes \<Rightarrow> bytes \<Rightarrow> bytes \<Rightarrow> bytes \<Rightarrow> bytes option"
  utf8_encode :: "string \<Rightarrow> bytes"
  utf8_decode :: "bytes \<Rightarrow> string"
  btoa :: "bytes \<Rightarrow> string"
  atob :: "string \<Rightarrow> bytes option"

datatype crypto_error =
  PasswordTypeError
| KeyTypeError
| PayloadTooShort
| AuthenticationFailed
| InvalidCharacterError

definition IV_LENGTH :: nat where "IV_LENGTH = 12"
definition AUTH_TAG_LENGTH :: nat where "AUTH_TAG_LENGTH = 16"
definition SALT_LENGTH :: nat where "SALT_LENGTH = 32"
definition KEY_LENGTH :: nat where "KEY_LENGTH = 32"
definition PBKDF2_ITERATIONS :: nat where "PBKDF2_ITERATIONS = 600000"
definition BROWSER_PBKDF2_ITERATIONS :: nat where "BROWSER_PBKDF2_ITERATIONS = 100000"

text \<open>\<open>crypto.randomBytes(n)\<close>, \<open>crypto.getRandomValues(new Uint8Array(n))\<close>.\<close>

definition randomBytes :: "nat \<Rightarrow> rng \<Rightarrow> bytes \<times> rng" where
  "randomBytes n g = (map g [0..<n], (\<lambda>i. g (i + n)))"

subsection \<open>Node module\<close>

text \<open>\<open>deriveKey(password, salt, iterations)\<close>; the password is a string here, so
  \<open>!password || typeof password !== 'string'\<close> is the test for the empty string.\<close>

definition deriveKey ::
  "platform \<Rightarrow> string \<Rightarrow> bytes option \<Rightarrow> nat \<Rightarrow> rng \<Rightarrow> crypto_error + (bytes \<times> bytes \<times> rng)" where
  "deriveKey pf password salt iterations g =
     (if password = [] then Inl PasswordTypeError
      else
        (let (usedSalt, g1) = (case salt of None \<Rightarrow> randomBytes SALT_LENGTH g
                                          | Some sl \<Rightarrow> (sl, g))
         in Inr (pbkdf2_sha512 pf (utf8_encode pf password) usedSalt iterations KEY_LENGTH,
                 usedSalt, g1)))"

text \<open>\<open>encrypt(plaintext, key)\<close>: the packed buffer is \<open>Buffer.concat([iv, authTag,
  ciphertext])\<close>.\<close>

definition encrypt :: "platform \<Rightarrow> string \<Rightarrow> bytes \<Rightarrow> rng \<Rightarrow> crypto_error + (bytes \<times> rng)" where
  "encrypt pf plaintext key g =
     (if length key \<noteq> KEY_LENGTH then Inl KeyTypeError
      else
        (let (iv, g1) = randomBytes IV_LENGTH g;
             data = utf8_encode pf plaintext;
             (ciphertext, authTag) = gcm_encrypt pf key iv data
         in Inr (iv @ authTag @ ciphertext, g1)))"

definition decrypt :: "platform \<Rightarrow> bytes \<Rightarrow> bytes \<Rightarrow> crypto_error + bytes" where
  "decrypt pf encrypted key =
     (if length key \<noteq> KEY_LENGTH then Inl KeyTypeError
      else if length encrypted < IV_LENGTH + AUTH_TAG_LENGTH + 1 then Inl PayloadTooShort
      else
        (let iv = take IV_LENGTH encrypted;
             authTag = take AUTH_TAG_LENGTH (drop IV_LENGTH encrypted);
             ciphertext = drop (IV_LENGTH + AUTH_TAG_LENGTH) encrypted
         in case gcm_decrypt pf key iv ciphertext authTag of
              None \<Rightarrow> Inl AuthenticationFailed
            | Some p \<Rightarrow> Inr p))"

definition encryptWithPassword ::
  "platform \<Rightarrow> string \<Rightarrow> string \<Rightarrow> rng \<Rightarrow> crypto_error + (bytes \<times> rng)" where
  "encryptWithPassword pf plaintext password g =
     (case deriveKey pf password None PBKDF2_ITERATIONS g of
        Inl e \<Rightarrow> Inl e
      | Inr (key, salt, g1) \<Rightarrow>
          (case encrypt pf plaintext key g1 of
             Inl e \<Rightarrow> Inl e
           | Inr (encrypted, g2) \<Rightarrow> Inr (salt @ encrypted, g2)))"

definition decryptWithPassword :: "platform \<Rightarrow> bytes \<Rightarrow> string \<Rightarrow> crypto_error + string" where
  "decryptWithPassword pf payload password =
     (if length payload < SALT_LENGTH + IV_LENGTH + AUTH_TAG_LENGTH + 1 then Inl PayloadTooShort
      else
        (let salt = take SALT_LENGTH payload;
             encrypted = drop SALT_LENGTH payload
         in case deriveKey pf password (Some salt) PBKDF2_ITERATIONS (\<lambda>i. 0) of
              Inl e \<Rightarrow> Inl e
            | Inr (key, usedSalt, g1) \<Rightarrow>
                (case decrypt pf encrypted key of
                   Inl e \<Rightarrow> Inl e
                 | Inr p \<Rightarrow> Inr (utf8_decode pf p))))"

subsection \<open>Browser module\<close>

text \<open>\<open>crypto.subtle.encrypt\<close> with AES-GCM returns the ciphertext followed by the tag;
  \<open>crypto.subtle.decrypt\<close> takes the last \<open>tagLength / 8\<close> bytes as the tag and fails
  on a shorter input.\<close>

definition subtle_encrypt :: "platform \<Rightarrow> bytes \<Rightarrow> bytes \<Rightarrow> bytes \<Rightarrow> bytes" where
  "subtle_encrypt pf key iv data =
     (let (ciphertext, authTag) = gcm_encrypt pf key iv data in ciphertext @ authTag)"

definition subtle_decrypt :: "platform \<Rightarrow> bytes \<Rightarrow> bytes \<Rightarrow> bytes \<Rightarrow> crypto_error + bytes" where
  "subtle_decrypt pf key iv ciphertextWithTag =
     (if length ciphertextWithTag < AUTH_TAG_LENGTH then Inl AuthenticationFailed
      else
        (let n = length ciphertextWithTag - AUTH_TAG_LENGTH in
         case gcm_decrypt pf key iv (take n ciphertextWithTag) (drop n ciphertextWithTag) of
           None \<Rightarrow> Inl AuthenticationFailed
         | Some p \<Rightarrow> Inr p))"

definition toBase64 :: "platform \<Rightarrow> bytes \<Rightarrow> string" where
  "toBase64 pf uint8 = btoa pf uint8"

definition fromBase64 :: "platform \<Rightarrow> string \<Rightarrow> crypto_error + bytes" where
  "fromBase64 pf str = (case atob pf str of None \<Rightarrow> Inl InvalidCharacterError | Some b \<Rightarrow> Inr b)"

text \<open>\<open>CryptoBrowser.deriveKey(password, salt)\<close> has no test of the password.\<close>

definition browser_deriveKey ::
  "platform \<Rightarrow> string \<Rightarrow> bytes option \<Rightarrow> rng \<Rightarrow> bytes \<times> bytes \<times> rng" where
  "browser_deriveKey pf password salt g =
     (let (usedSalt, g1) = (case salt of None \<Rightarrow> randomBytes SALT_LENGTH g
                                       | Some sl \<Rightarrow> (sl, g))
      in (pbkdf2_sha512 pf (utf8_encode pf password) usedSalt BROWSER_PBKDF2_ITERATIONS KEY_LENGTH,
          usedSalt, g1))"

definition browser_encryptWithPassword ::
  "platform \<Rightarrow> string \<Rightarrow> string \<Rightarrow> rng \<Rightarrow> string \<times> rng" where
  "browser_encryptWithPassword pf plaintext password g =
     (let (key, salt, g1) = browser_deriveKey pf password None g;
          (iv, g2) = randomBytes IV_LENGTH g1;
          ciphertextWithTag = subtle_encrypt pf key iv (utf8_encode pf plaintext);
          packed = salt @ iv @ ciphertextWithTag
      in (toBase64 pf packed, g2))"

definition browser_decryptWithPassword ::
  "platform \<Rightarrow> string \<Rightarrow> string \<Rightarrow> crypto_error + string" where
  "browser_decryptWithPassword pf payload password =
     (case fromBase64 pf payload of
        Inl e \<Rightarrow> Inl e
      | Inr data \<Rightarrow>
          if length data < SALT_LENGTH + IV_LENGTH + AUTH_TAG_LENGTH + 1 then Inl PayloadTooShort
          else
            (let salt = take SALT_LENGTH data;
                 iv = take IV_LENGTH (drop SALT_LENGTH data);
                 ciphertext = drop (SALT_LENGTH + IV_LENGTH) data;
                 (key, usedSalt, g1) = browser_deriveKey pf password (Some salt) (\<lambda>i. 0)
             in case subtle_decrypt pf key iv ciphertext of
                  Inl e \<Rightarrow> Inl e
                | Inr plainBuf \<Rightarrow> Inr (utf8_decode pf plainBuf)))"

subsection \<open>Encrypt, then decrypt with the same password\<close>

definition node_roundtrip :: "platform \<Rightarrow> string \<Rightarrow> string \<Rightarrow> rng \<Rightarrow> crypto_error + string" where
  "node_roundtrip pf plaintext password g =
     (case encryptWithPassword pf plaintext password g of
        Inl e \<Rightarrow> Inl e
      | Inr (payload, g1) \<Rightarrow> decryptWithPassword pf payload password)"

definition browser_roundtrip :: "platform \<Rightarrow> string \<Rightarrow> string \<Rightarrow> rng \<Rightarrow> crypto_error + string" where
  "browser_roundtrip pf plaintext password g =
     browser_decryptWithPassword pf (fst (browser_encryptWithPassword pf plaintext password g))
       password"

subsection \<open>What the primitives are relied on for\<close>

text \<open>AES-GCM decrypts what it encrypted under the same key and nonce, its ciphertext
  is as long as the plaintext and its tag has \<open>authTagLength\<close> bytes; PBKDF2 returns
  \<open>keylen\<close> bytes; \<open>atob\<close> inverts \<open>btoa\<close>; only the empty string encodes to no bytes.\<close>

definition platform_contract :: "platform \<Rightarrow> bool" where
  "platform_contract pf =
     ((\<forall>key iv p. gcm_decrypt pf key iv (fst (gcm_encrypt pf key iv p))
                     (snd (gcm_encrypt pf key iv p)) = Some p \<and>
                  length (fst (gcm_encrypt pf key iv p)) = length p \<and>
                  length (snd (gcm_encrypt pf key iv p)) = AUTH_TAG_LENGTH) \<and>
      (\<forall>pw salt it n. length (pbkdf2_sha512 pf pw salt it n) = n) \<and>
      (\<forall>b. atob pf (btoa pf b) = Some b) \<and>
      (\<forall>t. (utf8_encode pf t = []) = (t = [])))"

text \<open>A small instance of the primitives, for concrete runs: the cipher copies the
  plaintext and tags it with sixteen zero bytes, the key is all zero, and the codecs map a
  character to the byte of its code.\<close>

definition byte_of_char :: "char \<Rightarrow> byte" where
  "byte_of_char c = of_nat (of_char c)"

definition char_of_byte :: "byte \<Rightarrow> char" where
  "char_of_byte b = char_of (unat b)"

definition test_platform :: platform where
  "test_platform =
     \<lparr>pbkdf2_sha512 = (\<lambda>pw salt it n. replicate n 0),
      gcm_encrypt = (\<lambda>key iv p. (p, replicate 16 0)),
      gcm_decrypt = (\<lambda>key iv c t. if t = replicate 16 0 then Some c else None),
      utf8_encode = map byte_of_char,
      utf8_decode = map char_of_byte,
      btoa = map char_of_byte,
      atob = (\<lambda>t. Some (map byte_of_char t))\<rparr>"

definition zero_rng :: rng where
  "zero_rng = (\<lambda>i. 0)"

section \<open>The client session controller (\<open>GhostChat\<close>)\<close>

text \<open>
  The module-level variables of \<open>GhostChat\<close>. \<open>ws_readyState\<close> is \<open>None\<close> while \<open>ws\<close> is
  \<open>null\<close>, else the socket's \<open>readyState\<close> (0 CONNECTING, 1 OPEN, 3 CLOSED);
  \<open>reconnectTimer\<close> holds the delay the pending timer was armed with. The numbers are
  integers below \<open>2^53\<close>, on which \<open>Math.pow\<close>, \<open>*\<close> and \<open>Math.min\<close> are exact (and
  \<open>Math.min\<close> of an overflowed product is the cap).
\<close>

record client =
  ws_readyState :: "nat option"
  sessionPassword :: "string option"
  userId :: "string option"
  recipientId :: "string option"
  isConnected :: bool
  reconnectAttempts :: nat
  reconnectTimer :: "nat option"

definition RECONNECT_BASE_MS :: nat where "RECONNECT_BASE_MS = 1000"
definition RECONNECT_MAX_MS :: nat where "RECONNECT_MAX_MS = 15000"
definition CONNECTING :: nat where "CONNECTING = 0"
definition OPEN :: nat where "OPEN = 1"
definition CLOSED :: nat where "CLOSED = 3"

text \<open>The frames the client sends.\<close>

datatype c2s =
  Register "string option"
| Seen string

text \<open>What the client does to the outside in one step: frames sent, timers armed (by
  delay), messages put on the page (text, media type, label).\<close>

record effects =
  frames :: "c2s list"
  timers :: "nat list"
  shown :: "(string \<times> string \<times> string) list"

definition no_effects :: effects where
  "no_effects = \<lparr>frames = [], timers = [], shown = []\<rparr>"

definition scheduleReconnect :: "client \<Rightarrow> client \<times> effects" where
  "scheduleReconnect c =
     (if reconnectTimer c \<noteq> None then (c, no_effects)
      else
        (let delay = min (RECONNECT_BASE_MS * 2 ^ reconnectAttempts c) RECONNECT_MAX_MS in
         (c\<lparr>reconnectAttempts := reconnectAttempts c + 1, reconnectTimer := Some delay\<rparr>,
          no_effects\<lparr>timers := [delay]\<rparr>)))"

text \<open>\<open>connectWebSocket()\<close>; \<open>ctor_ok\<close> tells whether \<open>new WebSocket(url)\<close> returns.\<close>

definition connectWebSocket :: "bool \<Rightarrow> client \<Rightarrow> client \<times> effects" where
  "connectWebSocket ctor_ok c =
     (if ws_readyState c = Some OPEN \<or> ws_readyState c = Some CONNECTING then (c, no_effects)
      else if ctor_ok then (c\<lparr>ws_readyState := Some CONNECTING\<rparr>, no_effects)
      else scheduleReconnect c)"

text \<open>The events of the session: the socket's \<open>open\<close>, \<open>close\<close> and \<open>error\<close>, and the
  reconnect timer's callback.\<close>

datatype client_event = WsOpen | WsClose | WsError | TimerFired bool

fun client_step :: "client \<Rightarrow> client_event \<Rightarrow> client \<times> effects" where
  "client_step c WsOpen =
     (c\<lparr>ws_readyState := Some OPEN, isConnected := True, reconnectAttempts := 0\<rparr>,
      no_effects\<lparr>frames := [Register (userId c)]\<rparr>)"
| "client_step c WsClose =
     scheduleReconnect (c\<lparr>ws_readyState := map_option (\<lambda>r. CLOSED) (ws_readyState c),
                          isConnected := False\<rparr>)"
| "client_step c WsError = (c\<lparr>isConnected := False\<rparr>, no_effects)"
| "client_step c (TimerFired ctor_ok) =
     (let c1 = c\<lparr>reconnectTimer := None\<rparr> in
      if truthy (sessionPassword c1) \<and> truthy (userId c1) then connectWebSocket ctor_ok c1
      else (c1, no_effects))"

text \<open>The delays of the timers armed while a list of events is handled, in order.\<close>

fun delays :: "client \<Rightarrow> client_event list \<Rightarrow> nat list" where
  "delays c [] = []"
| "delays c (e # es) = timers (snd (client_step c e)) @ delays (fst (client_step c e)) es"

fun after :: "client \<Rightarrow> client_event list \<Rightarrow> client" where
  "after c [] = c"
| "after c (e # es) = after (fst (client_step c e)) es"

text \<open>One failed reconnect attempt: the timer fires and \<open>new WebSocket\<close> throws, or
  the new socket closes without having opened, with or without an \<open>error\<close> event
  before the \<open>close\<close>.\<close>

definition is_failed_attempt :: "client_event list \<Rightarrow> bool" where
  "is_failed_attempt es =
     (es = [TimerFired True, WsError, WsClose] \<or> es = [TimerFired True, WsClose] \<or>
      es = [TimerFired False])"

text \<open>\<open>handleIncomingMessage(chatMsg)\<close>, as in the media version of the client; the
  argument \<open>decrypt_call\<close> stands for the awaited call
  \<open>CryptoBrowser.decryptWithPassword(chatMsg.content, sessionPassword)\<close>, \<open>Inl\<close> when it
  throws.\<close>

definition handleIncomingMessage ::
  "client \<Rightarrow> (string \<Rightarrow> string option \<Rightarrow> crypto_error + string) \<Rightarrow> chat_message \<Rightarrow> effects" where
  "handleIncomingMessage c decrypt_call chatMsg =
     (let decrypted = (case decrypt_call (content chatMsg) (sessionPassword c) of
                         Inl e \<Rightarrow> None
                       | Inr t \<Rightarrow> Some t);
          label = (if Some (msg_from chatMsg) = userId c then ''sent'' else ''received'');
          media = (if mediaType chatMsg \<noteq> [] then mediaType chatMsg else ''text'')
      in \<lparr>frames = (if label = ''received'' \<and> ws_readyState c = Some OPEN
                    then [Seen (msg_id chatMsg)] else []),
          timers = [],
          shown = (if \<not> truthy decrypted then [(''Ruido ilegible'', ''text'', label)]
                   else [(the decrypted, media, label)])\<rparr>)"

text \<open>The same function in the text-only version of the client.\<close>

definition handleIncomingMessage_text ::
  "client \<Rightarrow> (string \<Rightarrow> string option \<Rightarrow> crypto_error + string) \<Rightarrow> chat_message \<Rightarrow> effects" where
  "handleIncomingMessage_text c decrypt_call chatMsg =
     (let displayText = (case decrypt_call (content chatMsg) (sessionPassword c) of
                           Inl e \<Rightarrow> ''Ruido ilegible''
                         | Inr t \<Rightarrow> t);
          label = (if Some (msg_from chatMsg) = userId c then ''sent'' else ''received'')
      in \<lparr>frames = (if label = ''received'' \<and> ws_readyState c = Some OPEN
                    then [Seen (msg_id chatMsg)] else []),
          timers = [],
          shown = [(displayText, ''text'', label)]\<rparr>)"

text \<open>The socket's \<open>message\<close> listener, for the two frames that carry messages; the
  system line of \<open>pending_messages\<close> is not recorded.\<close>

fun handle_each ::
  "client \<Rightarrow> (string \<Rightarrow> string option \<Rightarrow> crypto_error + string) \<Rightarrow> chat_message list \<Rightarrow> effects" where
  "handle_each c dec [] = no_effects"
| "handle_each c dec (m # ms) =
     (let e1 = handleIncomingMessage c dec m; e2 = handle_each c dec ms in
      \<lparr>frames = frames e1 @ frames e2, timers = timers e1 @ timers e2,
       shown = shown e1 @ shown e2\<rparr>)"

definition on_server_frame ::
  "client \<Rightarrow> (string \<Rightarrow> string option \<Rightarrow> crypto_error + string) \<Rightarrow> s2c \<Rightarrow> effects" where
  "on_server_frame c dec f =
     (case f of
        NewMessage m \<Rightarrow> handleIncomingMessage c dec m
      | PendingMessages ms n \<Rightarrow> (if length ms > 0 then handle_each c dec ms else no_effects)
      | _ \<Rightarrow> no_effects)"

section \<open>Concrete runs\<close>

text \<open>Alice registers on socket 1 and sends one message to Bob, who is not connected.\<close>

definition alice_sent :: server where
  "alice_sent =
     (let s1 = state (on_message (on_connection init_server 1) 1 (register_frame ''alice'') [] 0)
      in state (on_message s1 1 (send_message_frame ''bob'' ''c1'') ''m1'' 7))"

definition m1 :: chat_message where
  "m1 = \<lparr>msg_id = ''m1'', msg_from = ''alice'', msg_to = ''bob'', content = ''c1'',
         mediaType = ''text'', timestamp = 7\<rparr>"

text \<open>Then Bob connects on socket 2, before or after Alice's socket has closed.\<close>

definition bob_connected :: server where
  "bob_connected = on_connection alice_sent 2"

definition bob_joined :: server where
  "bob_joined = state (on_message bob_connected 2 (register_frame ''bob'') [] 8)"

definition bob_joined_alice_left :: server where
  "bob_joined_alice_left =
     state (on_message (on_connection (on_close alice_sent 1) 2) 2 (register_frame ''bob'') [] 8)"

text \<open>Or Alice registers again on a second socket while the first is still open.\<close>

definition alice_reconnected :: server where
  "alice_reconnected =
     state (on_message (on_connection alice_sent 2) 2 (register_frame ''alice'') [] 8)"

text \<open>A client that holds the identity \<open>alice\<close> on an open socket, and two messages
  addressed to it: one from Bob, one it sent to itself.\<close>

definition connected_client :: client where
  "connected_client =
     \<lparr>ws_readyState = Some 1, sessionPassword = Some ''clave'', userId = Some ''alice'',
      recipientId = Some ''bob'', isConnected = True, reconnectAttempts = 0,
      reconnectTimer = None\<rparr>"

definition from_bob :: chat_message where
  "from_bob = \<lparr>msg_id = ''m2'', msg_from = ''bob'', msg_to = ''alice'', content = ''c2'',
               mediaType = ''text'', timestamp = 9\<rparr>"

definition from_self :: chat_message where
  "from_self = \<lparr>msg_id = ''m3'', msg_from = ''alice'', msg_to = ''alice'', content = ''c3'',
                mediaType = ''text'', timestamp = 9\<rparr>"

definition held_decrypt :: "string \<Rightarrow> string option \<Rightarrow> crypto_error + string" where
  "held_decrypt payload password =
     (case password of
        None \<Rightarrow> Inl PasswordTypeError
      | Some w \<Rightarrow> browser_decryptWithPassword test_platform payload w)"

section \<open>Properties of the relay server\<close>

lemma redisKey_inj [simp]: "(redisKey a = redisKey b) = (a = b)"
  by (simp add: redisKey_def)

lemma find_raw_Some:
  "find_raw messageId q = Some (r, m) \<Longrightarrow>
     r = Entry m \<and> Entry m \<in> set q \<and> msg_id m = messageId"
  by (induction q) (auto split: option.splits if_splits elim: JSON_parse.elims)

lemma find_raw_None:
  "find_raw messageId q = None \<Longrightarrow> Entry m \<in> set q \<Longrightarrow> msg_id m \<noteq> messageId"
  by (induction q) (auto split: option.splits if_splits)

lemma live_ws_redis [simp]: "live_ws (s\<lparr>redis := q\<rparr>) u = live_ws s u"
  by (simp add: live_ws_def split: option.splits)

lemma live_ws_iff:
  "(live_ws s a \<noteq> []) = (\<exists>w. clients s a = Some w \<and> readyState s w = 1)"
  by (auto simp: live_ws_def split: option.splits)

lemma notify_live:
  "concat (map (\<lambda>a. map (\<lambda>w. (w, f)) (live_ws s a)) xs) =
     map (\<lambda>a. (the (clients s a), f)) (filter (\<lambda>a. live_ws s a \<noteq> []) xs)"
  by (induction xs) (auto simp: live_ws_def split: option.splits)

lemma set_add_distinct: "distinct xs \<Longrightarrow> distinct (set_add x xs)"
  by (simp add: set_add_def)

lemma set_set_add [simp]: "set (set_add x xs) = insert x (set xs)"
  by (auto simp: set_add_def)

lemma collect_senders_distinct: "distinct acc \<Longrightarrow> distinct (collect_senders q acc)"
  by (induction q arbitrary: acc) (auto split: option.splits simp: set_add_distinct)

lemma collect_senders_set:
  "set (collect_senders q acc) = set acc \<union> {msg_from m |m. Entry m \<in> set q}"
  by (induction q arbitrary: acc) (auto split: option.splits elim: JSON_parse.elims)

text \<open>The states of the concrete runs, field by field.\<close>

lemmas run_defs =
  on_message_def on_connection_def on_close_def init_server_def register_frame_def
  send_message_frame_def seen_frame_def seen_all_frame_def case_register_def
  case_send_message_def case_seen_def case_seen_all_def case_default_def deliverPending_def
  deleteMessageFromRedis_def live_ws_def finish_def throw_def redisKey_def set_add_def Let_def

lemma alice_sent_state:
  "clients alice_sent = (\<lambda>u. if u = ''alice'' then Some 1 else None)"
  "redis alice_sent = (\<lambda>k. if k = ''chat:bob'' then [Entry m1] else [])"
  "userId_of alice_sent = (\<lambda>w. if w = 1 then Some ''alice'' else None)"
  "readyState alice_sent = (\<lambda>w. if w = 1 then 1 else 0)"
  by (auto simp: alice_sent_def m1_def run_defs fun_eq_iff)

lemma bob_connected_state:
  "clients bob_connected = (\<lambda>u. if u = ''alice'' then Some 1 else None)"
  "redis bob_connected = (\<lambda>k. if k = ''chat:bob'' then [Entry m1] else [])"
  "userId_of bob_connected = (\<lambda>w. if w = 1 then Some ''alice'' else None)"
  "readyState bob_connected = (\<lambda>w. if w = 2 then 1 else if w = 1 then 1 else 0)"
  by (auto simp: bob_connected_def alice_sent_state on_connection_def fun_eq_iff)

lemma bob_joined_state:
  "clients bob_joined =
     (\<lambda>u. if u = ''bob'' then Some 2 else if u = ''alice'' then Some 1 else None)"
  "redis bob_joined = (\<lambda>k. if k = ''chat:bob'' then [Entry m1] else [])"
  "userId_of bob_joined =
     (\<lambda>w. if w = 2 then Some ''bob'' else if w = 1 then Some ''alice'' else None)"
  "readyState bob_joined = (\<lambda>w. if w = 2 then 1 else if w = 1 then 1 else 0)"
  by (auto simp: bob_joined_def bob_connected_state run_defs fun_eq_iff)

lemma bob_joined_alice_left_state:
  "clients bob_joined_alice_left = (\<lambda>u. if u = ''bob'' then Some 2 else None)"
  "redis bob_joined_alice_left = (\<lambda>k. if k = ''chat:bob'' then [Entry m1] else [])"
  "userId_of bob_joined_alice_left =
     (\<lambda>w. if w = 2 then Some ''bob'' else if w = 1 then Some ''alice'' else None)"
  "readyState bob_joined_alice_left = (\<lambda>w. if w = 2 then 1 else if w = 1 then 3 else 0)"
  by (auto simp: bob_joined_alice_left_def alice_sent_state run_defs fun_eq_iff)

lemma alice_reconnected_state:
  "clients alice_reconnected = (\<lambda>u. if u = ''alice'' then Some 2 else None)"
  "userId_of alice_reconnected =
     (\<lambda>w. if w = 2 then Some ''alice'' else if w = 1 then Some ''alice'' else None)"
  "readyState alice_reconnected = (\<lambda>w. if w = 2 then 1 else if w = 1 then 1 else 0)"
  by (auto simp: alice_reconnected_def alice_sent_state run_defs fun_eq_iff)

lemma on_message_entries_parse:
  assumes "entries_parse s"
  shows "entries_parse (state (on_message s ws raw uuid now))"
proof (cases raw)
  case NotJson
  then show ?thesis using assms by (simp add: on_message_def finish_def)
next
  case JsonNull
  then show ?thesis using assms by (simp add: on_message_def throw_def)
next
  case (Json m)
  have reg: "entries_parse (state (case_register s ws m))"
    using assms by (simp add: case_register_def deliverPending_def finish_def throw_def
        entries_parse_def Let_def)
  have push: "entries_parse (state (case_send_message s ws m uuid now))"
    using assms by (simp add: case_send_message_def finish_def entries_parse_def Let_def)
  have seen: "entries_parse (state (case_seen s ws m now))"
    using assms
    by (auto simp: case_seen_def deleteMessageFromRedis_def finish_def entries_parse_def Let_def
        split: option.splits dest: notin_set_remove1)
  have drain: "entries_parse (state (case_seen_all s ws now))"
    using assms by (simp add: case_seen_all_def finish_def entries_parse_def Let_def)
  have dflt: "entries_parse (state (case_default s ws m))"
    using assms by (simp add: case_default_def finish_def)
  show ?thesis using Json reg push seen drain dflt by (simp add: on_message_def)
qed

lemma init_server_entries_parse: "entries_parse init_server"
  by (simp add: entries_parse_def init_server_def)

subsection \<open>The \<open>seen\<close> frame\<close>

text \<open>
  Claim C2. A registered caller (its connection's \<open>userId\<close> is \<open>u\<close>) sends \<open>seen\<close> with a
  message id. The handler returns normally and changes nothing but the caller's own list.
  If a stored message has the id, one such element is removed (the list is one shorter),
  the sender of that message gets \<open>message_seen\<close> when the registry maps it to an open
  socket, and the caller gets \<open>ack_seen\<close> with \<open>deleted: true\<close>. If no stored message has
  the id, which is the case of a second \<open>seen\<close> for an id already removed, the state is
  unchanged and the caller gets \<open>ack_seen\<close> with \<open>deleted: false\<close> and the reason, not an
  \<open>error\<close> frame.
\<close>

theorem seen_removes_at_most_one:
  assumes reg: "userId_of s ws = Some u" and u: "u \<noteq> []" and mid: "messageId \<noteq> []"
  shows "let q = redis s (redisKey u);
             r = on_message s ws (seen_frame messageId) uuid now;
             q' = redis (state r) (redisKey u)
         in \<not> threw r \<and> clients (state r) = clients s \<and>
            userId_of (state r) = userId_of s \<and> readyState (state r) = readyState s \<and>
            (\<forall>k. k \<noteq> redisKey u \<longrightarrow> redis (state r) k = redis s k) \<and>
            ((\<exists>m. Entry m \<in> set q \<and> msg_id m = messageId) \<longrightarrow>
               (\<exists>m. Entry m \<in> set q \<and> msg_id m = messageId \<and>
                    q' = remove1 (Entry m) q \<and> length q' + 1 = length q \<and>
                    sent r = map (\<lambda>w. (w, MessageSeen messageId u now)) (live_ws s (msg_from m))
                             @ [(ws, AckSeen messageId True None)])) \<and>
            ((\<forall>m. Entry m \<in> set q \<longrightarrow> msg_id m \<noteq> messageId) \<longrightarrow>
               state r = s \<and>
               sent r = [(ws, AckSeen messageId False (Some ''Mensaje no encontrado en la cola''))])"
proof (cases "find_raw messageId (redis s (redisKey u))")
  case None
  have nomatch: "\<And>m. Entry m \<in> set (redis s (redisKey u)) \<Longrightarrow> msg_id m \<noteq> messageId"
    using find_raw_None [OF None] by blast
  show ?thesis
    using reg u mid None nomatch
    by (auto simp: on_message_def seen_frame_def case_seen_def deleteMessageFromRedis_def
        finish_def Let_def)
next
  case (Some p)
  obtain r m where p: "p = (r, m)" by (cases p)
  from find_raw_Some [OF Some [unfolded p]]
  have r: "r = Entry m" and mem: "Entry m \<in> set (redis s (redisKey u))"
    and idm: "msg_id m = messageId" by auto
  have len: "length (remove1 (Entry m) (redis s (redisKey u))) + 1 = length (redis s (redisKey u))"
    using mem by (simp add: length_remove1) (metis length_pos_if_in_set Suc_pred)
  show ?thesis
    using reg u mid Some p r mem idm len
    by (auto simp: on_message_def seen_frame_def case_seen_def deleteMessageFromRedis_def
        finish_def Let_def)
qed

text \<open>Bob acknowledges Alice's message while she is connected, then acknowledges it
  again.\<close>

theorem seen_removes_at_most_one_witness:
  "userId_of bob_joined 2 = Some ''bob'' \<and>
   redis bob_joined (redisKey ''bob'') = [Entry m1] \<and>
   redis (state (on_message bob_joined 2 (seen_frame ''m1'') [] 9)) (redisKey ''bob'') = [] \<and>
   sent (on_message bob_joined 2 (seen_frame ''m1'') [] 9) =
     [(1, MessageSeen ''m1'' ''bob'' 9), (2, AckSeen ''m1'' True None)] \<and>
   sent (on_message (state (on_message bob_joined 2 (seen_frame ''m1'') [] 9)) 2
           (seen_frame ''m1'') [] 10) =
     [(2, AckSeen ''m1'' False (Some ''Mensaje no encontrado en la cola''))]"
proof -
  have h: "userId_of bob_joined 2 = Some ''bob''" by (simp add: bob_joined_state)
  have q: "redis bob_joined (redisKey ''bob'') = [Entry m1]"
    by (simp add: bob_joined_state redisKey_def)
  have l: "live_ws bob_joined ''alice'' = [1]" by (simp add: live_ws_def bob_joined_state)
  let ?s1 = "state (on_message bob_joined 2 (seen_frame ''m1'') [] 9)"
  note a = seen_removes_at_most_one [of bob_joined 2 "''bob''" "''m1''" "[]" 9, OF h]
  have first: "redis ?s1 (redisKey ''bob'') = [] \<and> userId_of ?s1 = userId_of bob_joined \<and>
      sent (on_message bob_joined 2 (seen_frame ''m1'') [] 9) =
     [(1, MessageSeen ''m1'' ''bob'' 9), (2, AckSeen ''m1'' True None)]"
    using a q l by (auto simp: Let_def m1_def)
  then have h1: "userId_of ?s1 2 = Some ''bob''" using h by simp
  note b = seen_removes_at_most_one [of ?s1 2 "''bob''" "''m1''" "[]" 10, OF h1]
  have second: "sent (on_message ?s1 2 (seen_frame ''m1'') [] 10) =
     [(2, AckSeen ''m1'' False (Some ''Mensaje no encontrado en la cola''))]"
    using b first by (simp add: Let_def)
  show ?thesis using h q first second by simp
qed

subsection \<open>The \<open>seen_all\<close> frame\<close>

text \<open>
  Claim C3, as the code has it. A registered caller \<open>u\<close> whose list holds \<open>n\<close> elements
  sends \<open>seen_all\<close>. The list is emptied and no other list changes. The senders of the
  stored messages are collected without repetition; each of them that the registry
  maps to an open socket gets one \<open>all_messages_seen\<close> frame carrying the total \<open>n\<close>, a
  sender that is not connected gets nothing, and the caller gets \<open>ack_seen_all\<close> with
  \<open>deletedCount = n\<close> (which may be 0).
\<close>

theorem seen_all_drains_and_notifies_live_senders:
  assumes reg: "userId_of s ws = Some u" and u: "u \<noteq> []"
  shows "let q = redis s (redisKey u);
             n = length q;
             senders = collect_senders q [];
             r = on_message s ws seen_all_frame uuid now
         in \<not> threw r \<and>
            redis (state r) (redisKey u) = [] \<and>
            (\<forall>k. k \<noteq> redisKey u \<longrightarrow> redis (state r) k = redis s k) \<and>
            clients (state r) = clients s \<and>
            distinct senders \<and> set senders = {msg_from m |m. Entry m \<in> set q} \<and>
            sent r = map (\<lambda>a. (the (clients s a), AllMessagesSeen u n now))
                         (filter (\<lambda>a. \<exists>w. clients s a = Some w \<and> readyState s w = 1) senders)
                     @ [(ws, AckSeenAll n)]"
  using assms collect_senders_distinct [of "[]" "redis s (redisKey u)"]
    collect_senders_set [of "redis s (redisKey u)" "[]"]
  by (simp add: on_message_def seen_all_frame_def case_seen_all_def finish_def Let_def
      notify_live live_ws_iff)

text \<open>Bob drains his list while Alice, the only sender, is connected.\<close>

theorem seen_all_drains_and_notifies_live_senders_witness:
  "userId_of bob_joined 2 = Some ''bob'' \<and>
   redis bob_joined (redisKey ''bob'') = [Entry m1] \<and>
   redis (state (on_message bob_joined 2 seen_all_frame [] 9)) (redisKey ''bob'') = [] \<and>
   sent (on_message bob_joined 2 seen_all_frame [] 9) =
     [(1, AllMessagesSeen ''bob'' 1 9), (2, AckSeenAll 1)]"
proof -
  have h: "userId_of bob_joined 2 = Some ''bob''" by (simp add: bob_joined_state)
  have q: "redis bob_joined (redisKey ''bob'') = [Entry m1]"
    by (simp add: bob_joined_state redisKey_def)
  have c: "collect_senders [Entry m1] [] = [''alice'']" by (simp add: m1_def set_add_def)
  note a = seen_all_drains_and_notifies_live_senders [of bob_joined 2 "''bob''" "[]" 9, OF h]
  show ?thesis
    using h q a [unfolded Let_def q c]
    by (simp add: bob_joined_state)
qed

text \<open>The claim as written gives every one of the senders a frame. Alice's socket has
  closed before Bob registers and drains his list: the list held one message, from Alice,
  and the only frame sent is Bob's acknowledgement.\<close>

theorem seen_all_offline_sender_counterexample:
  "redis bob_joined_alice_left (redisKey ''bob'') = [Entry m1] \<and>
   msg_from m1 = ''alice'' \<and>
   sent (on_message bob_joined_alice_left 2 seen_all_frame [] 9) = [(2, AckSeenAll 1)]"
  by (simp add: bob_joined_alice_left_state run_defs m1_def)

subsection \<open>The \<open>register\<close> frame\<close>

text \<open>
  Claim C4. A \<open>register\<close> frame with identity \<open>u\<close>, on a connection whose list for \<open>u\<close>
  holds the messages \<open>ms\<close>: the connection's \<open>userId\<close> becomes \<open>u\<close>, the registry maps \<open>u\<close>
  to the connection, and the frames sent are one \<open>pending_messages\<close> with \<open>ms\<close> in list
  order and \<open>count = length ms\<close> when \<open>ms\<close> is not empty, and none when it is empty. No
  Redis list changes.
\<close>

theorem register_flushes_pending:
  assumes u: "u \<noteq> []" and q: "redis s (redisKey u) = map Entry ms"
  shows "let r = on_message s ws (register_frame u) uuid now
         in \<not> threw r \<and>
            clients (state r) = (clients s)(u := Some ws) \<and>
            userId_of (state r) = (userId_of s)(ws := Some u) \<and>
            readyState (state r) = readyState s \<and>
            redis (state r) = redis s \<and>
            sent r = (if ms = [] then [] else [(ws, PendingMessages ms (length ms))])"
  using assms
  by (simp add: on_message_def register_frame_def case_register_def deliverPending_def
      finish_def throw_def Let_def comp_def)

text \<open>Bob registers while one message from Alice waits for him.\<close>

theorem register_flushes_pending_witness:
  "''bob'' \<noteq> [] \<and> redis bob_connected (redisKey ''bob'') = map Entry [m1] \<and>
   clients bob_joined ''bob'' = Some 2 \<and> userId_of bob_joined 2 = Some ''bob'' \<and>
   redis bob_joined = redis bob_connected \<and>
   sent (on_message bob_connected 2 (register_frame ''bob'') [] 8) =
     [(2, PendingMessages [m1] 1)]"
proof -
  have q: "redis bob_connected (redisKey ''bob'') = map Entry [m1]"
    by (simp add: bob_connected_state redisKey_def)
  have u: "''bob'' \<noteq> []" by simp
  show ?thesis
    using q register_flushes_pending [OF u q, of 2 "[]" 8]
    by (simp add: Let_def bob_joined_def)
qed

subsection \<open>Closing a connection\<close>

text \<open>The \<open>close\<close> handler deletes the key held in the connection's \<open>userId\<close>, whatever
  socket the registry maps it to.\<close>

lemma close_deletes_key:
  "userId_of s ws = Some u \<Longrightarrow> u \<noteq> [] \<Longrightarrow> clients (on_close s ws) u = None"
  by (simp add: on_close_def Let_def)

text \<open>
  Claim C6 says that closing a connection whose identity a newer connection has taken
  over leaves the registry alone. Here Alice is registered on socket 1 and registers
  again on socket 2, so that the registry maps \<open>alice\<close> to socket 2; then socket 1 closes.
  Socket 2 is still open and still holds \<open>userId = alice\<close>, but the registry has lost the
  entry.
\<close>

theorem close_of_superseded_connection_removes_newer_entry:
  "clients alice_reconnected ''alice'' = Some 2 \<and>
   userId_of alice_reconnected 1 = Some ''alice'' \<and>
   readyState (on_close alice_reconnected 1) 2 = 1 \<and>
   userId_of (on_close alice_reconnected 1) 2 = Some ''alice'' \<and>
   clients (on_close alice_reconnected 1) ''alice'' = None"
  by (simp add: alice_reconnected_state on_close_def Let_def)

text \<open>
  Claim C10. A connection that holds \<open>userId = u1\<close>, and to which the registry maps
  \<open>u1\<close>, sends \<open>register\<close> with another identity \<open>u2\<close>. Afterwards the registry maps both
  \<open>u1\<close> and \<open>u2\<close> to the connection. When the connection closes, the entry of \<open>u2\<close> is
  deleted and the entry of \<open>u1\<close> stays, on a socket that is closed.
\<close>

theorem rebind_leaves_stale_entry:
  assumes "userId_of s ws = Some u1" and "clients s u1 = Some ws"
    and "u2 \<noteq> []" and "u1 \<noteq> u2"
  shows "let s1 = state (on_message s ws (register_frame u2) uuid now);
             s2 = on_close s1 ws
         in clients s1 u1 = Some ws \<and> clients s1 u2 = Some ws \<and>
            userId_of s1 ws = Some u2 \<and>
            clients s2 u2 = None \<and> clients s2 u1 = Some ws \<and> readyState s2 ws = 3"
  using assms
  by (simp add: on_message_def register_frame_def case_register_def deliverPending_def
      finish_def throw_def on_close_def Let_def)

text \<open>Alice's connection registers again as \<open>alicia\<close> and closes.\<close>

theorem rebind_leaves_stale_entry_witness:
  "userId_of alice_sent 1 = Some ''alice'' \<and> clients alice_sent ''alice'' = Some 1 \<and>
   ''alicia'' \<noteq> [] \<and> ''alice'' \<noteq> ''alicia'' \<and>
   clients (state (on_message alice_sent 1 (register_frame ''alicia'') [] 8)) ''alice'' = Some 1 \<and>
   clients (state (on_message alice_sent 1 (register_frame ''alicia'') [] 8)) ''alicia'' = Some 1 \<and>
   clients (on_close (state (on_message alice_sent 1 (register_frame ''alicia'') [] 8)) 1)
     ''alicia'' = None \<and>
   clients (on_close (state (on_message alice_sent 1 (register_frame ''alicia'') [] 8)) 1)
     ''alice'' = Some 1 \<and>
   readyState (on_close (state (on_message alice_sent 1 (register_frame ''alicia'') [] 8)) 1) 1
     = 3"
proof -
  have h1: "userId_of alice_sent 1 = Some ''alice''" by (simp add: alice_sent_state)
  have h2: "clients alice_sent ''alice'' = Some 1" by (simp add: alice_sent_state)
  have h3: "''alicia'' \<noteq> []" by simp
  have h4: "''alice'' \<noteq> ''alicia''" by simp
  show ?thesis
    using h1 h2 rebind_leaves_stale_entry [OF h1 h2 h3 h4, of "[]" 8]
    by (simp add: Let_def)
qed

subsection \<open>Frames that are refused\<close>

text \<open>A frame that does not parse, a frame other than \<open>register\<close> on a connection that
  has not registered, a frame that lacks a field its type requires, and a frame of
  unknown type are each answered by one \<open>error\<close> frame on the same connection, and the
  state is unchanged.\<close>

lemma invalid_frame_error_reply:
  assumes "raw = NotJson \<or>
     (\<exists>m. raw = Json m \<and>
        ((\<not> truthy (userId_of s ws) \<and> mtype m \<noteq> Some ''register'') \<or>
         (mtype m = Some ''register'' \<and> \<not> truthy (m_userId m)) \<or>
         (mtype m = Some ''send_message'' \<and> (\<not> truthy (m_to m) \<or> \<not> truthy (m_content m))) \<or>
         (mtype m = Some ''seen'' \<and> \<not> truthy (m_messageId m)) \<or>
         (mtype m \<noteq> Some ''register'' \<and> mtype m \<noteq> Some ''send_message'' \<and>
          mtype m \<noteq> Some ''seen'' \<and> mtype m \<noteq> Some ''seen_all'')))"
  shows "\<exists>e. on_message s ws raw uuid now = finish s [(ws, ErrorFrame e)]"
  using assms
  by (auto simp: on_message_def case_register_def case_send_message_def case_seen_def
      case_seen_all_def case_default_def)

text \<open>
  Claim C7 promises an \<open>error\<close> frame for every frame of a connection that has not
  registered, unless it is a \<open>register\<close>. The frame whose text is \<open>null\<close> parses, to
  \<open>null\<close>; reading its \<open>type\<close> throws, so the handler ends by an exception and sends
  nothing, on any connection and in any state.
\<close>

theorem null_frame_gets_no_error_reply:
  "threw (on_message s ws JsonNull uuid now) \<and> sent (on_message s ws JsonNull uuid now) = []"
  by (simp add: on_message_def throw_def)

section \<open>Properties of the client session controller\<close>

subsection \<open>Reconnecting\<close>

lemma delays_append: "delays c (xs @ ys) = delays c xs @ delays (after c xs) ys"
  by (induction xs arbitrary: c) simp_all

lemma after_append: "after c (xs @ ys) = after (after c xs) ys"
  by (induction xs arbitrary: c) simp_all

lemma close_schedules:
  assumes "reconnectTimer c = None"
  shows "timers (snd (client_step c WsClose)) =
           [min (1000 * 2 ^ reconnectAttempts c) 15000]"
    and "reconnectAttempts (fst (client_step c WsClose)) = Suc (reconnectAttempts c)"
    and "ws_readyState (fst (client_step c WsClose)) \<noteq> Some OPEN"
    and "ws_readyState (fst (client_step c WsClose)) \<noteq> Some CONNECTING"
  using assms
  by (auto simp: scheduleReconnect_def Let_def no_effects_def RECONNECT_BASE_MS_def
      RECONNECT_MAX_MS_def OPEN_def CONNECTING_def CLOSED_def)

lemma timer_fired:
  assumes "ws_readyState c \<noteq> Some OPEN" and "ws_readyState c \<noteq> Some CONNECTING"
  shows "timers (snd (client_step c (TimerFired True))) = []"
    and "reconnectAttempts (fst (client_step c (TimerFired True))) = reconnectAttempts c"
    and "reconnectTimer (fst (client_step c (TimerFired True))) = None"
  using assms by (auto simp: connectWebSocket_def Let_def no_effects_def)

lemma timer_fired_throws:
  assumes "ws_readyState c \<noteq> Some OPEN" and "ws_readyState c \<noteq> Some CONNECTING"
    and "truthy (sessionPassword c)" and "truthy (userId c)"
  shows "timers (snd (client_step c (TimerFired False))) =
           [min (1000 * 2 ^ reconnectAttempts c) 15000]"
    and "reconnectAttempts (fst (client_step c (TimerFired False))) =
           Suc (reconnectAttempts c)"
    and "ws_readyState (fst (client_step c (TimerFired False))) = ws_readyState c"
  using assms
  by (auto simp: connectWebSocket_def scheduleReconnect_def Let_def no_effects_def
      RECONNECT_BASE_MS_def RECONNECT_MAX_MS_def)

lemma client_step_keeps_credentials:
  "sessionPassword (fst (client_step c e)) = sessionPassword c \<and>
   userId (fst (client_step c e)) = userId c"
  by (cases e)
     (auto simp: connectWebSocket_def scheduleReconnect_def Let_def no_effects_def)

lemma after_keeps_credentials:
  "sessionPassword (after c es) = sessionPassword c \<and> userId (after c es) = userId c"
  by (induction es arbitrary: c) (simp_all add: client_step_keeps_credentials)

lemma failed_attempt_step:
  assumes f: "is_failed_attempt es"
    and ws: "ws_readyState c \<noteq> Some OPEN" "ws_readyState c \<noteq> Some CONNECTING"
    and cr: "truthy (sessionPassword c)" "truthy (userId c)"
  shows "delays c es = [min (1000 * 2 ^ reconnectAttempts c) 15000]"
    and "reconnectAttempts (after c es) = Suc (reconnectAttempts c)"
    and "ws_readyState (after c es) \<noteq> Some OPEN"
    and "ws_readyState (after c es) \<noteq> Some CONNECTING"
proof -
  let ?c1 = "fst (client_step c (TimerFired True))"
  let ?c2 = "fst (client_step ?c1 WsError)"
  have t1: "reconnectTimer ?c1 = None" and a1: "reconnectAttempts ?c1 = reconnectAttempts c"
    and e1: "timers (snd (client_step c (TimerFired True))) = []"
    using timer_fired [OF ws] by simp_all
  have t2: "reconnectTimer ?c2 = None" and a2: "reconnectAttempts ?c2 = reconnectAttempts c"
    and e2: "timers (snd (client_step ?c1 WsError)) = []"
    using t1 a1 by (simp_all add: no_effects_def)
  note thrown = timer_fired_throws [OF ws cr]
  from f consider
    (err) "es = [TimerFired True, WsError, WsClose]"
    | (cls) "es = [TimerFired True, WsClose]"
    | (thr) "es = [TimerFired False]"
    by (auto simp: is_failed_attempt_def)
  then have "delays c es = [min (1000 * 2 ^ reconnectAttempts c) 15000] \<and>
      reconnectAttempts (after c es) = Suc (reconnectAttempts c) \<and>
      ws_readyState (after c es) \<noteq> Some OPEN \<and>
      ws_readyState (after c es) \<noteq> Some CONNECTING"
  proof cases
    case err
    show ?thesis
      using e1 e2 close_schedules [OF t2] a2 by (simp add: err)
  next
    case cls
    show ?thesis
      using e1 close_schedules [OF t1] a1 by (simp add: cls)
  next
    case thr
    show ?thesis
      using thrown ws by (simp add: thr)
  qed
  then show "delays c es = [min (1000 * 2 ^ reconnectAttempts c) 15000]"
    and "reconnectAttempts (after c es) = Suc (reconnectAttempts c)"
    and "ws_readyState (after c es) \<noteq> Some OPEN"
    and "ws_readyState (after c es) \<noteq> Some CONNECTING"
    by simp_all
qed

lemma failed_attempts_delays:
  assumes "\<forall>es \<in> set attempts. is_failed_attempt es"
    and "ws_readyState c \<noteq> Some OPEN" and "ws_readyState c \<noteq> Some CONNECTING"
    and "truthy (sessionPassword c)" and "truthy (userId c)"
  shows "delays c (concat attempts) =
           map (\<lambda>i. min (1000 * 2 ^ (reconnectAttempts c + i)) 15000) [0..<length attempts] \<and>
         reconnectAttempts (after c (concat attempts)) = reconnectAttempts c + length attempts \<and>
         ws_readyState (after c (concat attempts)) \<noteq> Some OPEN \<and>
         ws_readyState (after c (concat attempts)) \<noteq> Some CONNECTING"
  using assms
proof (induction attempts arbitrary: c)
  case Nil
  then show ?case by simp
next
  case (Cons es attempts)
  have f: "is_failed_attempt es" and rest: "\<forall>es \<in> set attempts. is_failed_attempt es"
    using Cons.prems(1) by simp_all
  note st = failed_attempt_step [OF f Cons.prems(2-5)]
  have cr: "truthy (sessionPassword (after c es))" "truthy (userId (after c es))"
    using Cons.prems(4,5) by (simp_all add: after_keeps_credentials)
  note ih = Cons.IH [OF rest st(3) st(4) cr]
  show ?case
    using st(1) st(2) ih
    by (simp add: delays_append after_append map_upt_Suc del: upt_Suc)
qed

lemma backoff_mono:
  "a \<le> b \<Longrightarrow> min ((1000::nat) * 2 ^ a) 15000 \<le> min (1000 * 2 ^ b) 15000"
proof -
  assume "a \<le> b"
  then have "(2::nat) ^ a \<le> 2 ^ b" by (simp add: power_increasing)
  then have "(1000::nat) * 2 ^ a \<le> 1000 * 2 ^ b" by simp
  then show ?thesis by (rule min.mono) simp
qed

lemma backoff_sorted: "sorted (map (\<lambda>i. min ((1000::nat) * 2 ^ (a + i)) 15000) [0..<n])"
  unfolding sorted_iff_nth_mono
proof (intro allI impI)
  fix i j
  assume ij: "i \<le> j"
    and j: "j < length (map (\<lambda>i. min ((1000::nat) * 2 ^ (a + i)) 15000) [0..<n])"
  then have "i < n" "j < n" by simp_all
  then show "map (\<lambda>i. min ((1000::nat) * 2 ^ (a + i)) 15000) [0..<n] ! i
        \<le> map (\<lambda>i. min ((1000::nat) * 2 ^ (a + i)) 15000) [0..<n] ! j"
    using ij backoff_mono [of "a + i" "a + j"] by simp
qed

text \<open>
  Claim C8. The client holds its identity and password and has no reconnect timer
  pending when its socket closes. The close and the failed attempts that follow, however
  each of them fails, arm one timer each; the one armed after \<open>i\<close> earlier ones has the
  delay \<open>min (1000 * 2 ^ (reconnectAttempts + i)) 15000\<close>, and the delays never decrease.
  When the timer fires once more and the socket opens, \<open>reconnectAttempts\<close> is 0 again, and
  the next close arms a timer of 1000 ms.
\<close>

theorem reconnect_delays_backoff:
  assumes "reconnectTimer c = None"
    and "truthy (sessionPassword c)" and "truthy (userId c)"
    and "\<forall>es \<in> set attempts. is_failed_attempt es"
  shows "let failures = WsClose # concat attempts;
             ds = delays c failures;
             reopened = after c (failures @ [TimerFired True, WsOpen])
         in ds = map (\<lambda>i. min (1000 * 2 ^ (reconnectAttempts c + i)) 15000)
                     [0..<Suc (length attempts)] \<and>
            sorted ds \<and>
            reconnectAttempts reopened = 0 \<and>
            delays reopened [WsClose] = [1000]"
proof -
  let ?c1 = "fst (client_step c WsClose)"
  let ?fs = "concat attempts"
  let ?c2 = "after ?c1 ?fs"
  note cl = close_schedules [OF assms(1)]
  have cr: "truthy (sessionPassword ?c1)" "truthy (userId ?c1)"
    using assms(2,3) by (simp_all only: client_step_keeps_credentials)
  note fa = failed_attempts_delays [OF assms(4) cl(3) cl(4) cr]
  have ds: "delays c (WsClose # ?fs) =
      map (\<lambda>i. min (1000 * 2 ^ (reconnectAttempts c + i)) 15000) [0..<Suc (length attempts)]"
    using cl(1) cl(2) fa by (simp add: map_upt_Suc del: upt_Suc)
  have c2: "ws_readyState ?c2 \<noteq> Some OPEN" "ws_readyState ?c2 \<noteq> Some CONNECTING"
    using fa by simp_all
  let ?c3 = "fst (client_step ?c2 (TimerFired True))"
  let ?c4 = "fst (client_step ?c3 WsOpen)"
  have t4: "reconnectTimer ?c4 = None" using timer_fired(3) [OF c2] by simp
  have a4: "reconnectAttempts ?c4 = 0" by simp
  have re: "after c ((WsClose # ?fs) @ [TimerFired True, WsOpen]) = ?c4"
    by (simp add: after_append)
  have base: "delays ?c4 [WsClose] = [1000]"
    using close_schedules(1) [OF t4] a4 by simp
  show ?thesis
    unfolding Let_def re ds
    using a4 base backoff_sorted [of "reconnectAttempts c" "Suc (length attempts)"]
    by simp
qed

lemma upt5: "[0..<5] = [0, 1, 2, 3, 4]"
  by (simp add: upt_rec)

text \<open>A connected client loses its socket and fails to reconnect four times, in each of
  the three ways, then succeeds, then loses the socket again.\<close>

theorem reconnect_delays_backoff_witness:
  "reconnectTimer connected_client = None \<and>
   truthy (sessionPassword connected_client) \<and> truthy (userId connected_client) \<and>
   is_failed_attempt [TimerFired True, WsError, WsClose] \<and>
   is_failed_attempt [TimerFired False] \<and> is_failed_attempt [TimerFired True, WsClose] \<and>
   delays connected_client
     (WsClose # concat [[TimerFired True, WsError, WsClose], [TimerFired False],
                        [TimerFired True, WsClose], [TimerFired True, WsError, WsClose]]) =
     [1000, 2000, 4000, 8000, 15000] \<and>
   delays (after connected_client
             ((WsClose # concat [[TimerFired True, WsError, WsClose], [TimerFired False],
                                 [TimerFired True, WsClose], [TimerFired True, WsError, WsClose]])
              @ [TimerFired True, WsOpen]))
     [WsClose] = [1000]"
proof -
  let ?attempts = "[[TimerFired True, WsError, WsClose], [TimerFired False],
                    [TimerFired True, WsClose], [TimerFired True, WsError, WsClose]]"
  have h1: "reconnectTimer connected_client = None" by (simp add: connected_client_def)
  have h2: "truthy (sessionPassword connected_client)" by (simp add: connected_client_def)
  have h3: "truthy (userId connected_client)" by (simp add: connected_client_def)
  have h4: "\<forall>es \<in> set ?attempts. is_failed_attempt es" by (simp add: is_failed_attempt_def)
  have a: "reconnectAttempts connected_client = 0" by (simp add: connected_client_def)
  note b = reconnect_delays_backoff [OF h1 h2 h3 h4, unfolded Let_def]
  have m: "map (\<lambda>i. min (1000 * 2 ^ (reconnectAttempts connected_client + i)) 15000)
             [0..<Suc (length ?attempts)] = [1000, 2000, 4000, 8000, 15000::nat]"
    by (simp add: a upt_rec)
  have ds: "delays connected_client (WsClose # concat ?attempts) =
      [1000, 2000, 4000, 8000, 15000]"
    using b [THEN conjunct1] unfolding m .
  have base: "delays (after connected_client
                        ((WsClose # concat ?attempts) @ [TimerFired True, WsOpen]))
      [WsClose] = [1000]"
    using b [THEN conjunct2, THEN conjunct2, THEN conjunct2] .
  show ?thesis
    by (intro conjI h1 h2 h3 ds base) (simp_all add: is_failed_attempt_def)
qed

subsection \<open>Acknowledging received messages\<close>

text \<open>
  Claim C9, as the code has it. While the client's socket is open, a \<open>new_message\<close>
  whose sender is not the client's own identity is answered by one \<open>seen\<close> frame with the
  message's id, and a \<open>pending_messages\<close> frame by one \<open>seen\<close> per such entry, in order; a
  message whose sender is the client's own identity is shown as sent and gets no \<open>seen\<close>.
  The outcome of the decryption plays no part: when it fails, the placeholder is shown
  and the same frames are sent. Both versions of \<open>handleIncomingMessage\<close> agree.
\<close>

theorem seen_sent_for_messages_of_others:
  assumes "ws_readyState c = Some OPEN"
  shows "frames (on_server_frame c dec (NewMessage m)) =
           (if Some (msg_from m) = userId c then [] else [Seen (msg_id m)]) \<and>
         frames (on_server_frame c dec (PendingMessages ms n)) =
           map (\<lambda>m. Seen (msg_id m)) (filter (\<lambda>m. Some (msg_from m) \<noteq> userId c) ms) \<and>
         frames (handleIncomingMessage_text c dec m) =
           (if Some (msg_from m) = userId c then [] else [Seen (msg_id m)]) \<and>
         ((\<forall>t. dec (content m) (sessionPassword c) \<noteq> Inr t) \<longrightarrow>
            map fst (shown (handleIncomingMessage c dec m)) = [''Ruido ilegible''] \<and>
            map fst (shown (handleIncomingMessage_text c dec m)) = [''Ruido ilegible''])"
proof -
  have one: "\<And>m. frames (handleIncomingMessage c dec m) =
           (if Some (msg_from m) = userId c then [] else [Seen (msg_id m)])"
    using assms by (simp add: handleIncomingMessage_def Let_def)
  have each: "frames (handle_each c dec ms) =
      map (\<lambda>m. Seen (msg_id m)) (filter (\<lambda>m. Some (msg_from m) \<noteq> userId c) ms)"
    by (induction ms) (simp_all add: one no_effects_def Let_def)
  have old: "frames (handleIncomingMessage_text c dec m) =
           (if Some (msg_from m) = userId c then [] else [Seen (msg_id m)])"
    using assms by (simp add: handleIncomingMessage_text_def Let_def)
  have ph: "(\<forall>t. dec (content m) (sessionPassword c) \<noteq> Inr t) \<longrightarrow>
            map fst (shown (handleIncomingMessage c dec m)) = [''Ruido ilegible''] \<and>
            map fst (shown (handleIncomingMessage_text c dec m)) = [''Ruido ilegible'']"
    by (cases "dec (content m) (sessionPassword c)")
       (simp_all add: handleIncomingMessage_def handleIncomingMessage_text_def Let_def)
  have pend: "frames (on_server_frame c dec (PendingMessages ms n)) =
           map (\<lambda>m. Seen (msg_id m)) (filter (\<lambda>m. Some (msg_from m) \<noteq> userId c) ms)"
    using each by (cases ms) (simp_all add: on_server_frame_def no_effects_def)
  show ?thesis
    using one [of m] pend old ph by (simp add: on_server_frame_def)
qed

lemma held_decrypt_fails:
  "held_decrypt ''c2'' (Some ''clave'') = Inl PayloadTooShort"
  by (simp add: held_decrypt_def browser_decryptWithPassword_def fromBase64_def
      test_platform_def SALT_LENGTH_def IV_LENGTH_def AUTH_TAG_LENGTH_def)

text \<open>Alice's client receives a message from Bob that it cannot decrypt, alone and in a
  batch with a message of her own.\<close>

theorem seen_sent_for_messages_of_others_witness:
  "ws_readyState connected_client = Some OPEN \<and>
   frames (on_server_frame connected_client held_decrypt (NewMessage from_bob)) = [Seen ''m2''] \<and>
   frames (on_server_frame connected_client held_decrypt
             (PendingMessages [from_bob, from_self] 2)) = [Seen ''m2''] \<and>
   map fst (shown (handleIncomingMessage connected_client held_decrypt from_bob)) =
     [''Ruido ilegible'']"
proof -
  have h: "ws_readyState connected_client = Some OPEN"
    by (simp add: connected_client_def OPEN_def)
  have d: "\<forall>t. held_decrypt (content from_bob) (sessionPassword connected_client) \<noteq> Inr t"
    by (simp add: from_bob_def connected_client_def held_decrypt_fails)
  note a = seen_sent_for_messages_of_others [OF h, of held_decrypt from_bob "[from_bob, from_self]" 2]
  have u: "userId connected_client = Some ''alice''" by (simp add: connected_client_def)
  show ?thesis
    using h d a by (simp add: u from_bob_def from_self_def)
qed

text \<open>The claim as written covers every message addressed to the client's own
  identity. A message that Alice sent to herself comes back addressed to her, on an open
  socket, and no \<open>seen\<close> is sent for it.\<close>

theorem self_addressed_message_counterexample:
  "msg_to from_self = ''alice'' \<and> userId connected_client = Some ''alice'' \<and>
   ws_readyState connected_client = Some OPEN \<and>
   frames (on_server_frame connected_client held_decrypt (NewMessage from_self)) = [] \<and>
   frames (on_server_frame connected_client held_decrypt (PendingMessages [from_self] 1)) = []"
  by (simp add: on_server_frame_def handleIncomingMessage_def from_self_def
      connected_client_def OPEN_def no_effects_def Let_def)

section \<open>Properties of the cipher envelope\<close>

lemma randomBytes_length [simp]: "length (fst (randomBytes n g)) = n"
  by (simp add: randomBytes_def)

lemma node_envelope:
  assumes pc: "platform_contract pf" and w: "password \<noteq> []"
  shows "let salt = fst (randomBytes SALT_LENGTH g);
             g1 = snd (randomBytes SALT_LENGTH g);
             iv = fst (randomBytes IV_LENGTH g1);
             key = pbkdf2_sha512 pf (utf8_encode pf password) salt PBKDF2_ITERATIONS KEY_LENGTH;
             ct = fst (gcm_encrypt pf key iv (utf8_encode pf plaintext));
             tag = snd (gcm_encrypt pf key iv (utf8_encode pf plaintext))
         in encryptWithPassword pf plaintext password g =
              Inr (salt @ iv @ tag @ ct, snd (randomBytes IV_LENGTH g1))"
  using assms
  by (simp add: encryptWithPassword_def deriveKey_def encrypt_def platform_contract_def
      Let_def split_beta)

lemma browser_envelope:
  "let salt = fst (randomBytes SALT_LENGTH g);
             g1 = snd (randomBytes SALT_LENGTH g);
             iv = fst (randomBytes IV_LENGTH g1);
             key = pbkdf2_sha512 pf (utf8_encode pf password) salt BROWSER_PBKDF2_ITERATIONS KEY_LENGTH;
             ct = fst (gcm_encrypt pf key iv (utf8_encode pf plaintext));
             tag = snd (gcm_encrypt pf key iv (utf8_encode pf plaintext))
         in browser_encryptWithPassword pf plaintext password g =
              (btoa pf (salt @ iv @ ct @ tag), snd (randomBytes IV_LENGTH g1))"
  by (simp add: browser_encryptWithPassword_def browser_deriveKey_def subtle_encrypt_def
      toBase64_def Let_def split_beta)

lemma node_roundtrip_ok:
  assumes pc: "platform_contract pf" and w: "password \<noteq> []" and p: "plaintext \<noteq> []"
    and u: "utf8_decode pf (utf8_encode pf plaintext) = plaintext"
  shows "node_roundtrip pf plaintext password g = Inr plaintext"
proof -
  let ?salt = "fst (randomBytes SALT_LENGTH g)"
  let ?g1 = "snd (randomBytes SALT_LENGTH g)"
  let ?iv = "fst (randomBytes IV_LENGTH ?g1)"
  let ?key = "pbkdf2_sha512 pf (utf8_encode pf password) ?salt PBKDF2_ITERATIONS KEY_LENGTH"
  let ?e = "gcm_encrypt pf ?key ?iv (utf8_encode pf plaintext)"
  have enc: "encryptWithPassword pf plaintext password g =
      Inr (?salt @ ?iv @ snd ?e @ fst ?e, snd (randomBytes IV_LENGTH ?g1))"
    using node_envelope [OF pc w, where g=g and plaintext=plaintext] by (simp add: Let_def)
  have gcm: "gcm_decrypt pf ?key ?iv (fst ?e) (snd ?e) = Some (utf8_encode pf plaintext)"
    and lc: "length (fst ?e) = length (utf8_encode pf plaintext)"
    and lt: "length (snd ?e) = AUTH_TAG_LENGTH"
    and lk: "length ?key = KEY_LENGTH"
    using pc by (simp_all add: platform_contract_def)
  have ne: "utf8_encode pf plaintext \<noteq> []"
    using pc p by (simp add: platform_contract_def)
  then have pos: "0 < length (fst ?e)" using lc by simp
  have ls: "length ?salt = SALT_LENGTH" and li: "length ?iv = IV_LENGTH" by simp_all
  have dec: "decryptWithPassword pf (?salt @ ?iv @ snd ?e @ fst ?e) password = Inr plaintext"
    using w gcm lt lk pos ls li u
    by (simp add: decryptWithPassword_def deriveKey_def decrypt_def Let_def)
  show ?thesis
    by (simp add: node_roundtrip_def enc dec)
qed

lemma browser_roundtrip_ok:
  assumes pc: "platform_contract pf" and p: "plaintext \<noteq> []"
    and u: "utf8_decode pf (utf8_encode pf plaintext) = plaintext"
  shows "browser_roundtrip pf plaintext password g = Inr plaintext"
proof -
  let ?salt = "fst (randomBytes SALT_LENGTH g)"
  let ?g1 = "snd (randomBytes SALT_LENGTH g)"
  let ?iv = "fst (randomBytes IV_LENGTH ?g1)"
  let ?key = "pbkdf2_sha512 pf (utf8_encode pf password) ?salt BROWSER_PBKDF2_ITERATIONS KEY_LENGTH"
  let ?e = "gcm_encrypt pf ?key ?iv (utf8_encode pf plaintext)"
  have enc: "fst (browser_encryptWithPassword pf plaintext password g) =
      btoa pf (?salt @ ?iv @ fst ?e @ snd ?e)"
    using browser_envelope [where pf=pf and g=g and password=password and plaintext=plaintext] by (simp add: Let_def)
  have gcm: "gcm_decrypt pf ?key ?iv (fst ?e) (snd ?e) = Some (utf8_encode pf plaintext)"
    and lc: "length (fst ?e) = length (utf8_encode pf plaintext)"
    and lt: "length (snd ?e) = AUTH_TAG_LENGTH"
    and b64: "atob pf (btoa pf (?salt @ ?iv @ fst ?e @ snd ?e)) = Some (?salt @ ?iv @ fst ?e @ snd ?e)"
    using pc by (simp_all add: platform_contract_def)
  have ne: "utf8_encode pf plaintext \<noteq> []"
    using pc p by (simp add: platform_contract_def)
  then have pos: "0 < length (fst ?e)" using lc by simp
  have ls: "length ?salt = SALT_LENGTH" and li: "length ?iv = IV_LENGTH" by simp_all
  have dec: "browser_decryptWithPassword pf (btoa pf (?salt @ ?iv @ fst ?e @ snd ?e)) password
      = Inr plaintext"
    using gcm lt pos ls li u b64
    by (simp add: browser_decryptWithPassword_def fromBase64_def browser_deriveKey_def
        subtle_decrypt_def Let_def)
  show ?thesis
    by (simp add: browser_roundtrip_def enc dec)
qed

lemma empty_plaintext_rejected:
  assumes pc: "platform_contract pf" and w: "password \<noteq> []"
  shows "node_roundtrip pf [] password g = Inl PayloadTooShort"
    and "browser_roundtrip pf [] password g = Inl PayloadTooShort"
proof -
  let ?salt = "fst (randomBytes SALT_LENGTH g)"
  let ?g1 = "snd (randomBytes SALT_LENGTH g)"
  let ?iv = "fst (randomBytes IV_LENGTH ?g1)"
  let ?key = "pbkdf2_sha512 pf (utf8_encode pf password) ?salt PBKDF2_ITERATIONS KEY_LENGTH"
  let ?e = "gcm_encrypt pf ?key ?iv (utf8_encode pf [])"
  let ?bkey = "pbkdf2_sha512 pf (utf8_encode pf password) ?salt BROWSER_PBKDF2_ITERATIONS KEY_LENGTH"
  let ?be = "gcm_encrypt pf ?bkey ?iv (utf8_encode pf [])"
  have u0: "utf8_encode pf [] = []" using pc by (simp add: platform_contract_def)
  have lc: "length (fst ?e) = 0" and lt: "length (snd ?e) = AUTH_TAG_LENGTH"
    and blc: "length (fst ?be) = 0" and blt: "length (snd ?be) = AUTH_TAG_LENGTH"
    and b64: "atob pf (btoa pf (?salt @ ?iv @ fst ?be @ snd ?be)) = Some (?salt @ ?iv @ fst ?be @ snd ?be)"
    using pc u0 by (simp_all add: platform_contract_def)
  have enc: "encryptWithPassword pf [] password g =
      Inr (?salt @ ?iv @ snd ?e @ fst ?e, snd (randomBytes IV_LENGTH ?g1))"
    using node_envelope [OF pc w, where g=g and plaintext="[]"] by (simp add: Let_def)
  have ls: "length ?salt = SALT_LENGTH" and li: "length ?iv = IV_LENGTH" by simp_all
  show "node_roundtrip pf [] password g = Inl PayloadTooShort"
    using lc lt ls li by (simp add: node_roundtrip_def enc decryptWithPassword_def)
  have benc: "fst (browser_encryptWithPassword pf [] password g) =
      btoa pf (?salt @ ?iv @ fst ?be @ snd ?be)"
    using browser_envelope [where pf=pf and g=g and password=password and plaintext="[]"] by (simp add: Let_def)
  show "browser_roundtrip pf [] password g = Inl PayloadTooShort"
    using blc blt ls li b64
    by (simp add: browser_roundtrip_def benc browser_decryptWithPassword_def fromBase64_def)
qed

lemma char_of_byte_inverse [simp]: "byte_of_char (char_of_byte b) = b"
proof -
  have "unat b < 256" using unsigned_less [of b, where 'a = nat] by simp
  then show ?thesis by (simp add: byte_of_char_def char_of_byte_def)
qed

lemma test_platform_contract: "platform_contract test_platform"
  by (simp add: platform_contract_def test_platform_def AUTH_TAG_LENGTH_def comp_def)

lemma byte_of_char_inverse [simp]: "char_of_byte (byte_of_char c) = c"
proof -
  have "(of_char c :: nat) < 256" by (rule nat_of_char_less_256)
  then show ?thesis by (simp add: byte_of_char_def char_of_byte_def unat_of_nat)
qed

lemma randomBytes_zero [simp]: "randomBytes n zero_rng = (replicate n 0, zero_rng)"
  by (simp add: randomBytes_def zero_rng_def map_replicate_const)

lemma test_utf8 [simp]: "utf8_decode test_platform (utf8_encode test_platform t) = t"
  by (simp add: test_platform_def comp_def)

lemma byte_a: "byte_of_char CHR ''a'' = 97"
  by (simp add: byte_of_char_def)

lemma bytes_neq: "replicate 16 0 @ [97] \<noteq> [97] @ replicate 16 (0::byte)"
proof -
  have "replicate (Suc 15) (0::byte) = 0 # replicate 15 0" by (rule replicate_Suc)
  then have "replicate 16 (0::byte) = 0 # replicate 15 0" by simp
  then show ?thesis by simp
qed

subsection \<open>Round trip\<close>

text \<open>
  Claim C1, as the code has it. The primitives keep their contract, the password is not
  empty, and the plaintext is not empty and survives the UTF-8 codec. Then, in the Node
  module and in the browser module, decrypting what \<open>encryptWithPassword\<close> returned,
  with the same password, returns the plaintext, whatever the random bytes were.
\<close>

theorem password_roundtrip_nonempty:
  assumes "platform_contract pf" and "password \<noteq> []" and "plaintext \<noteq> []"
    and "utf8_decode pf (utf8_encode pf plaintext) = plaintext"
  shows "node_roundtrip pf plaintext password g = Inr plaintext \<and>
         browser_roundtrip pf plaintext password g = Inr plaintext"
  using node_roundtrip_ok [OF assms] browser_roundtrip_ok [OF assms(1) assms(3) assms(4)]
  by simp

theorem password_roundtrip_nonempty_witness:
  "platform_contract test_platform \<and> ''clave'' \<noteq> [] \<and> ''hola'' \<noteq> [] \<and>
   utf8_decode test_platform (utf8_encode test_platform ''hola'') = ''hola'' \<and>
   node_roundtrip test_platform ''hola'' ''clave'' zero_rng = Inr ''hola'' \<and>
   browser_roundtrip test_platform ''hola'' ''clave'' zero_rng = Inr ''hola''"
proof -
  have h1: "platform_contract test_platform" by (rule test_platform_contract)
  have h2: "''clave'' \<noteq> []" and h3: "''hola'' \<noteq> []" by simp_all
  have h4: "utf8_decode test_platform (utf8_encode test_platform ''hola'') = ''hola''"
    by (rule test_utf8)
  show ?thesis
    using h1 h4 password_roundtrip_nonempty [OF h1 h2 h3 h4, of zero_rng] by simp
qed

text \<open>The claim as written covers every plaintext. The empty plaintext gives a payload
  of 60 bytes, which \<open>decryptWithPassword\<close> refuses in both modules as too short.\<close>

theorem empty_plaintext_roundtrip_counterexample:
  "node_roundtrip test_platform [] ''clave'' zero_rng = Inl PayloadTooShort \<and>
   browser_roundtrip test_platform [] ''clave'' zero_rng = Inl PayloadTooShort"
  using empty_plaintext_rejected [OF test_platform_contract, of "''clave''" zero_rng]
  by simp

subsection \<open>Layout of the envelope\<close>

text \<open>
  Claim C5, as the code has it. With a salt of 32 and a nonce of 12 random bytes, and a
  tag of 16 bytes: the browser module returns the base64 text of salt, nonce,
  ciphertext, tag, in this order; the Node module returns the bytes themselves, not a
  text, in the order salt, nonce, tag, ciphertext.
\<close>

theorem envelope_layouts:
  assumes "platform_contract pf" and "password \<noteq> []"
  shows "let salt = fst (randomBytes SALT_LENGTH g);
             g1 = snd (randomBytes SALT_LENGTH g);
             iv = fst (randomBytes IV_LENGTH g1);
             g2 = snd (randomBytes IV_LENGTH g1);
             pw = utf8_encode pf password;
             data = utf8_encode pf plaintext;
             bkey = pbkdf2_sha512 pf pw salt BROWSER_PBKDF2_ITERATIONS KEY_LENGTH;
             nkey = pbkdf2_sha512 pf pw salt PBKDF2_ITERATIONS KEY_LENGTH;
             bct = fst (gcm_encrypt pf bkey iv data);
             btag = snd (gcm_encrypt pf bkey iv data);
             nct = fst (gcm_encrypt pf nkey iv data);
             ntag = snd (gcm_encrypt pf nkey iv data)
         in browser_encryptWithPassword pf plaintext password g =
              (btoa pf (salt @ iv @ bct @ btag), g2) \<and>
            encryptWithPassword pf plaintext password g = Inr (salt @ iv @ ntag @ nct, g2) \<and>
            length salt = 32 \<and> length iv = 12 \<and> length btag = 16 \<and> length ntag = 16 \<and>
            length bct = length data \<and> length nct = length data"
proof -
  have len: "\<And>key iv p. length (fst (gcm_encrypt pf key iv p)) = length p \<and>
                          length (snd (gcm_encrypt pf key iv p)) = 16"
    using assms(1) by (simp add: platform_contract_def AUTH_TAG_LENGTH_def)
  show ?thesis
    using node_envelope [OF assms, where g = g and plaintext = plaintext]
      browser_envelope [where pf = pf and g = g and password = password
        and plaintext = plaintext] len
    by (simp add: Let_def SALT_LENGTH_def IV_LENGTH_def)
qed

theorem envelope_layouts_witness:
  "platform_contract test_platform \<and> ''clave'' \<noteq> [] \<and>
   browser_encryptWithPassword test_platform ''a'' ''clave'' zero_rng =
     (map char_of_byte (replicate 32 0 @ replicate 12 0 @ [97] @ replicate 16 0), zero_rng) \<and>
   encryptWithPassword test_platform ''a'' ''clave'' zero_rng =
     Inr (replicate 32 0 @ replicate 12 0 @ replicate 16 0 @ [97], zero_rng)"
proof -
  have h1: "platform_contract test_platform" by (rule test_platform_contract)
  have h2: "''clave'' \<noteq> []" by simp
  note a = envelope_layouts [OF h1 h2, of zero_rng "''a''"]
  have g: "\<And>key iv. gcm_encrypt test_platform key iv (utf8_encode test_platform ''a'') =
      ([97], replicate 16 0)"
    by (simp add: test_platform_def byte_a)
  have b: "\<And>bs. btoa test_platform bs = map char_of_byte bs"
    by (simp add: test_platform_def)
  show ?thesis
    using h1 a by (simp add: Let_def g b)
qed

text \<open>The claim as written puts the tag last in both modules. In the Node module the
  tag (sixteen zero bytes here) comes before the ciphertext (the byte 97).\<close>

theorem node_envelope_order_counterexample:
  "encryptWithPassword test_platform ''a'' ''clave'' zero_rng =
     Inr (replicate 32 0 @ replicate 12 0 @ replicate 16 0 @ [97], zero_rng) \<and>
   gcm_encrypt test_platform (replicate 32 0) (replicate 12 0) (utf8_encode test_platform ''a'') =
     ([97], replicate 16 0) \<and>
   replicate 32 0 @ replicate 12 0 @ replicate 16 0 @ [97] \<noteq>
     replicate 32 0 @ replicate 12 0 @ [97] @ replicate 16 (0::byte)"
proof -
  have e: "encryptWithPassword test_platform ''a'' ''clave'' zero_rng =
     Inr (replicate 32 0 @ replicate 12 0 @ replicate 16 0 @ [97], zero_rng)"
    by (simp add: encryptWithPassword_def deriveKey_def encrypt_def test_platform_def byte_a
        SALT_LENGTH_def IV_LENGTH_def KEY_LENGTH_def Let_def)
  have g: "gcm_encrypt test_platform (replicate 32 0) (replicate 12 0)
      (utf8_encode test_platform ''a'') = ([97], replicate 16 0)"
    by (simp add: test_platform_def byte_a)
  show ?thesis using e g bytes_neq by simp
qed

end
